theory Spec2Isabelle
  imports Complex_Main
begin

section \<open>Values produced by a candidate\<close>

text \<open>
  The scorer \<^verbatim>\<open>scripts/score.ts\<close> receives from the candidate's \<^verbatim>\<open>search\<close> a value of
  TypeScript type \<^verbatim>\<open>unknown\<close>. The values modelled are the JSON-like ones: \<^verbatim>\<open>undefined\<close>,
  \<^verbatim>\<open>null\<close>, booleans, integer-valued numbers, strings, arrays and plain objects. A string is
  a list of code units below 256. The numbers meant are the integers of magnitude below
  \<open>10^21\<close>, which \<^verbatim>\<open>String\<close> prints digit by digit.
\<close>

datatype jsval =
    JUndefined
  | JNull
  | JBool bool
  | JNum int
  | JStr string
  | JArr "jsval list"
  | JObject

fun show_nat :: "nat \<Rightarrow> string" where
  "show_nat n =
     (if n < 10 then [''0123456789'' ! n]
      else show_nat (n div 10) @ [''0123456789'' ! (n mod 10)])"

declare show_nat.simps [simp del]

definition show_int :: "int \<Rightarrow> string" where
  "show_int i = (if i < 0 then CHR ''-'' # show_nat (nat (- i)) else show_nat (nat i))"

fun join_comma :: "string list \<Rightarrow> string" where
  "join_comma [] = []"
| "join_comma [s] = s"
| "join_comma (s # t # ss) = s @ '','' @ join_comma (t # ss)"

text \<open>
  \<^verbatim>\<open>String(value)\<close>: a string is itself, an array is the comma-joined rendering of its
  elements with \<^verbatim>\<open>null\<close> and \<^verbatim>\<open>undefined\<close> elements rendered empty, a plain object is
  \<^verbatim>\<open>[object Object]\<close>.
\<close>

fun js_String :: "jsval \<Rightarrow> string" where
  "js_String JUndefined = ''undefined''"
| "js_String JNull = ''null''"
| "js_String (JBool b) = (if b then ''true'' else ''false'')"
| "js_String (JNum n) = show_int n"
| "js_String (JStr s) = s"
| "js_String (JArr vs) =
     join_comma (map (\<lambda>v. if v = JUndefined \<or> v = JNull then [] else js_String v) vs)"
| "js_String JObject = ''[object Object]''"

text \<open>
  \<^verbatim>\<open>Array.isArray(raw)\<close>.
\<close>

fun isArray :: "jsval \<Rightarrow> bool" where
  "isArray (JArr vs) = True"
| "isArray v = False"

text \<open>
  The white space that \<^verbatim>\<open>String.prototype.trim\<close> removes, among code units below 256:
  TAB, LF, VT, FF, CR, SP and NBSP.
\<close>

definition is_ws :: "char \<Rightarrow> bool" where
  "is_ws c = (of_char c \<in> {9, 10, 11, 12, 13, 32, 160 :: nat})"

definition trim :: "string \<Rightarrow> string" where
  "trim s = rev (dropWhile is_ws (rev (dropWhile is_ws s)))"

section \<open>Normalization of the candidate's output\<close>

text \<open>
  The loop of \<^verbatim>\<open>toUniqueIds\<close>, with its two mutable locals \<^verbatim>\<open>out\<close> and \<^verbatim>\<open>seen\<close> passed
  along.
\<close>

fun toUniqueIds_loop :: "jsval list \<Rightarrow> string list \<Rightarrow> string set \<Rightarrow> string list" where
  "toUniqueIds_loop [] out seen = out"
| "toUniqueIds_loop (v # rest) out seen =
     (let ident = trim (js_String v) in
      if ident = [] \<or> ident \<in> seen then toUniqueIds_loop rest out seen
      else toUniqueIds_loop rest (out @ [ident]) (insert ident seen))"

definition toUniqueIds :: "jsval \<Rightarrow> string list" where
  "toUniqueIds raw =
     (case raw of JArr vs \<Rightarrow> toUniqueIds_loop vs [] {} | _ \<Rightarrow> [])"

text \<open>
  The specification's wording of the normalization: stringify and trim each element, drop
  the empty strings, and remove duplicates keeping the first occurrence.
\<close>

fun keep_first :: "'a list \<Rightarrow> 'a list" where
  "keep_first [] = []"
| "keep_first (x # xs) = x # keep_first (filter (\<lambda>y. y \<noteq> x) xs)"

definition normalize_spec :: "jsval list \<Rightarrow> string list" where
  "normalize_spec vs =
     keep_first (filter (\<lambda>s. s \<noteq> []) (map (\<lambda>v. trim (js_String v)) vs))"

section \<open>Timing statistics\<close>

text \<open>
  Numbers are exact reals: the rounding of IEEE doubles is not modelled.
  \<^verbatim>\<open>sorted[idx] ?? 0\<close> is \<^verbatim>\<open>0\<close> when \<^verbatim>\<open>idx\<close> is not an index of the array.
\<close>

definition percentile :: "real list \<Rightarrow> real \<Rightarrow> real" where
  "percentile values pct =
     (if length values = 0 then 0
      else
        let sorted = sort values;
            idx = \<lfloor>real (length sorted - 1) * pct\<rfloor>
        in if 0 \<le> idx \<and> nat idx < length sorted then sorted ! nat idx else 0)"

section \<open>Data model\<close>

record RecordRow =
  row_id :: string
  row_name :: string

record TestCase =
  case_id :: string
  case_dataset :: string
  query :: string
  expectedIds :: "string list"
  falsePositiveIds :: "string list"
  tags :: "string list"
  case_notes :: string

record TestSuite =
  suite_name :: string
  suite_dataset :: string
  visibility :: string
  seed :: int
  cases :: "TestCase list"

record Args =
  arg_dataset :: string
  suitePath :: string
  verbose :: bool
  timeoutMs :: int

definition PENALTY_LISTED_FP :: real where
  "PENALTY_LISTED_FP = 0.02"

definition PENALTY_UNEXPECTED_EXTRA :: real where
  "PENALTY_UNEXPECTED_EXTRA = 0.05"

section \<open>The candidate\<close>

text \<open>
  The thrown values that the \<^verbatim>\<open>catch\<close> clause of the case loop records: an instance of
  \<^verbatim>\<open>Error\<close> whose message is a string, or another value, which \<^verbatim>\<open>String\<close> renders. An
  \<^verbatim>\<open>Error\<close> whose message is not a string, and a thrown value that \<^verbatim>\<open>String\<close> cannot render
  (the clause itself then throws, which ends \<^verbatim>\<open>main\<close>), are not values of this type.
\<close>

datatype thrown = ErrorObj string | Thrown jsval

text \<open>
  The promise returned by \<^verbatim>\<open>search\<close>, as the race in \<^verbatim>\<open>withTimeout\<close> sees it: fulfilled or
  rejected before the callback of the deadline timer runs, or still pending then. The timer is
  created only when \<^verbatim>\<open>search\<close> has returned, and when its callback runs is up to the event
  loop of the runtime, so the winner of the race is an input of the model and not computed
  from durations: a call that takes longer than the timeout before its promise settles can
  still win the race.
\<close>

datatype promise = Fulfilled jsval | Rejected thrown | Pending

text \<open>
  The candidate is a state machine over its own state \<open>'s\<close>. A call of \<^verbatim>\<open>search\<close> either
  throws synchronously or returns a promise; the model also takes from it the time that
  \<^verbatim>\<open>performance.now()\<close> measures around the call. \<^verbatim>\<open>setup\<close> and \<^verbatim>\<open>cleanup\<close> are optional
  exports; each is assumed to settle, with an exception or without.
\<close>

record 's Candidate =
  cand_setup :: "(string \<Rightarrow> 's \<Rightarrow> thrown option \<times> 's) option"
  search :: "string \<Rightarrow> 's \<Rightarrow> (thrown + promise) \<times> real \<times> 's"
  cleanup :: "('s \<Rightarrow> thrown option \<times> 's) option"

datatype call = CallSetup string | CallSearch string | CallCleanup

definition withTimeout :: "promise \<Rightarrow> int \<Rightarrow> thrown + jsval" where
  "withTimeout p ms =
     (case p of
        Fulfilled v \<Rightarrow> Inr v
      | Rejected e \<Rightarrow> Inl e
      | Pending \<Rightarrow>
          Inl (ErrorObj (''search timed out after '' @ js_String (JNum ms) @ ''ms'')))"

text \<open>
  \<^verbatim>\<open>error instanceof Error ? error.message : String(error)\<close>.
\<close>

fun error_text :: "thrown \<Rightarrow> string" where
  "error_text (ErrorObj message) = message"
| "error_text (Thrown v) = js_String v"

section \<open>Evaluation of one case\<close>

record CaseOutcome =
  returnedIds :: "string list"
  runtimeError :: "string option"
  elapsedMs :: real

record Classification =
  hitIds :: "string list"
  missingIds :: "string list"
  fpHits :: "string list"
  invalidIds :: "string list"
  extrasUnscored :: "string list"

record CaseReport =
  outcome :: CaseOutcome
  classes :: Classification
  pass :: bool

text \<open>
  The \<^verbatim>\<open>try\<close>/\<^verbatim>\<open>catch\<close> around the call of \<^verbatim>\<open>search\<close> in \<^verbatim>\<open>main\<close>.
\<close>

definition attempt :: "(thrown + promise) \<Rightarrow> int \<Rightarrow> string list \<times> string option" where
  "attempt res ms =
     (case res of
        Inl e \<Rightarrow> ([], Some (error_text e))
      | Inr p \<Rightarrow>
          (case withTimeout p ms of
             Inl e \<Rightarrow> ([], Some (error_text e))
           | Inr v \<Rightarrow> (toUniqueIds v, None)))"

text \<open>
  \<^verbatim>\<open>byId = new Map(rows.map((row) => [row.id, row]))\<close>: a later row replaces an earlier one
  with the same id.
\<close>

definition byId_of :: "RecordRow list \<Rightarrow> (string \<rightharpoonup> RecordRow)" where
  "byId_of rows = map_of (rev (map (\<lambda>row. (row_id row, row)) rows))"

text \<open>
  The five filters of \<^verbatim>\<open>main\<close>; \<open>expectedSet\<close> and \<open>fpSet\<close> are the two \<^verbatim>\<open>Set\<close>s built
  from the case.
\<close>

definition classify ::
  "TestCase \<Rightarrow> string list \<Rightarrow> (string \<rightharpoonup> RecordRow) \<Rightarrow> Classification" where
  "classify testCase returned byId =
     (let expectedSet = set (expectedIds testCase);
          fpSet = set (falsePositiveIds testCase)
      in \<lparr> hitIds = filter (\<lambda>i. i \<in> set returned) (expectedIds testCase),
           missingIds = filter (\<lambda>i. i \<notin> set returned) (expectedIds testCase),
           fpHits = filter (\<lambda>i. i \<in> fpSet) returned,
           invalidIds = filter (\<lambda>i. byId i = None) returned,
           extrasUnscored =
             filter (\<lambda>i. byId i \<noteq> None \<and> i \<notin> expectedSet \<and> i \<notin> fpSet) returned \<rparr>)"

definition case_pass :: "Classification \<Rightarrow> string option \<Rightarrow> bool" where
  "case_pass cl err =
     (length (missingIds cl) = 0
      \<and> length (fpHits cl) = 0
      \<and> length (extrasUnscored cl) = 0
      \<and> length (invalidIds cl) = 0
      \<and> err = None)"

section \<open>The case loop\<close>

record Counters =
  expectedTotal :: nat
  expectedHits :: nat
  listedFalsePositiveCount :: nat
  unexpectedExtraCount :: nat
  invalidIdCount :: nat
  returnedTotal :: nat
  passCases :: nat

text \<open>
  The mutable locals of \<^verbatim>\<open>main\<close>, together with what the run leaves behind: the reports
  handed to \<^verbatim>\<open>printCaseResult\<close>, the calls made to the candidate and the candidate's state.
\<close>

record 's RunState = Counters +
  timesMs :: "real list"
  reports :: "CaseReport list"
  calls :: "call list"
  cand :: 's

definition init_state :: "'s \<Rightarrow> 's RunState" where
  "init_state s =
     \<lparr> expectedTotal = 0, expectedHits = 0, listedFalsePositiveCount = 0,
       unexpectedExtraCount = 0, invalidIdCount = 0, returnedTotal = 0, passCases = 0,
       timesMs = [], reports = [], calls = [], cand = s \<rparr>"

text \<open>
  One iteration of the loop over \<^verbatim>\<open>suite.cases\<close>.
\<close>

definition eval_case ::
  "Args \<Rightarrow> (string \<rightharpoonup> RecordRow) \<Rightarrow> 's Candidate \<Rightarrow> TestCase \<Rightarrow> 's RunState \<Rightarrow> 's RunState" where
  "eval_case args byId c testCase st =
     (case search c (query testCase) (cand st) of
        (res, elapsed, s') \<Rightarrow>
          (case attempt res (timeoutMs args) of
             (returned, err) \<Rightarrow>
               let cl = classify testCase returned byId;
                   ok = case_pass cl err
               in st\<lparr> expectedTotal := expectedTotal st + length (expectedIds testCase),
                      expectedHits := expectedHits st + length (hitIds cl),
                      listedFalsePositiveCount :=
                        listedFalsePositiveCount st + length (fpHits cl),
                      unexpectedExtraCount :=
                        unexpectedExtraCount st + length (extrasUnscored cl),
                      invalidIdCount := invalidIdCount st + length (invalidIds cl),
                      returnedTotal := returnedTotal st + length returned,
                      passCases := (if ok then passCases st + 1 else passCases st),
                      timesMs := timesMs st @ [elapsed],
                      reports := reports st @
                        [\<lparr> outcome = \<lparr> returnedIds = returned, runtimeError = err,
                                        elapsedMs = elapsed \<rparr>,
                            classes = cl, pass = ok \<rparr>],
                      calls := calls st @ [CallSearch (query testCase)],
                      cand := s' \<rparr>))"

fun run_cases ::
  "Args \<Rightarrow> (string \<rightharpoonup> RecordRow) \<Rightarrow> 's Candidate \<Rightarrow> TestCase list \<Rightarrow> 's RunState \<Rightarrow> 's RunState" where
  "run_cases args byId c [] st = st"
| "run_cases args byId c (testCase # rest) st =
     run_cases args byId c rest (eval_case args byId c testCase st)"

section \<open>Finalization\<close>

record RunSummary = Counters +
  recall :: real
  precision :: real
  f1 :: real
  penaltyPoints :: real
  scoreRaw :: real
  score :: real
  totalMs :: real
  avgMs :: real
  p95Ms :: real
  qps :: real
  passRate :: real

definition finalize :: "nat \<Rightarrow> 's RunState \<Rightarrow> RunSummary" where
  "finalize caseCount st =
     (let recall = (if expectedTotal st = 0 then 100
                    else (real (expectedHits st) / real (expectedTotal st)) * 100);
          precision = (if returnedTotal st = 0 then 0
                       else (real (expectedHits st) / real (returnedTotal st)) * 100);
          f1 = (if recall + precision = 0 then 0
                else (2 * recall * precision) / (recall + precision));
          penaltyPoints =
            real (listedFalsePositiveCount st) * PENALTY_LISTED_FP
            + real (unexpectedExtraCount st) * PENALTY_UNEXPECTED_EXTRA;
          scoreRaw = recall - penaltyPoints;
          scoreClamped = max 0 (min 100 scoreRaw);
          score = (if invalidIdCount st > 0 then 0 else scoreClamped);
          totalMs = foldl (+) 0 (timesMs st);
          avgMs = totalMs / real (max 1 (length (timesMs st)));
          p95Ms = percentile (timesMs st) 0.95;
          qps = (if totalMs = 0 then 0 else (real caseCount / totalMs) * 1000);
          passRate = (if caseCount = 0 then 100
                      else (real (passCases st) / real caseCount) * 100)
      in \<lparr> expectedTotal = expectedTotal st, expectedHits = expectedHits st,
           listedFalsePositiveCount = listedFalsePositiveCount st,
           unexpectedExtraCount = unexpectedExtraCount st,
           invalidIdCount = invalidIdCount st, returnedTotal = returnedTotal st,
           passCases = passCases st,
           recall = recall, precision = precision, f1 = f1,
           penaltyPoints = penaltyPoints, scoreRaw = scoreRaw, score = score,
           totalMs = totalMs, avgMs = avgMs, p95Ms = p95Ms, qps = qps,
           passRate = passRate \<rparr>)"

section \<open>The run\<close>

datatype fatal =
    SuiteUnreadable
  | SuiteDatasetMismatch string string
  | DatasetUnreadable
  | SetupThrew thrown
  | CleanupThrew thrown

definition resolve :: "string \<Rightarrow> string \<Rightarrow> string" where
  "resolve cwd p = cwd @ ''/'' @ p"

definition datasetPath :: "string \<Rightarrow> Args \<Rightarrow> string" where
  "datasetPath cwd args = resolve cwd (''data/datasets/'' @ arg_dataset args @ ''/names.csv'')"

definition run_setup :: "'s Candidate \<Rightarrow> string \<Rightarrow> 's RunState \<Rightarrow> thrown option \<times> 's RunState" where
  "run_setup c path st =
     (case cand_setup c of
        None \<Rightarrow> (None, st)
      | Some f \<Rightarrow>
          (case f path (cand st) of
             (e, s') \<Rightarrow> (e, st\<lparr> calls := calls st @ [CallSetup path], cand := s' \<rparr>)))"

definition run_cleanup :: "'s Candidate \<Rightarrow> 's RunState \<Rightarrow> thrown option \<times> 's RunState" where
  "run_cleanup c st =
     (case cleanup c of
        None \<Rightarrow> (None, st)
      | Some f \<Rightarrow>
          (case f (cand st) of
             (e, s') \<Rightarrow> (e, st\<lparr> calls := calls st @ [CallCleanup], cand := s' \<rparr>)))"

text \<open>
  \<^verbatim>\<open>main\<close>, from the parsed arguments on. The suite file and the dataset file are given as
  what reading them yields (\<open>None\<close> when the read or the parse throws); \<open>cwd\<close> is the
  directory \<^verbatim>\<open>resolve\<close> starts from. The result is the summary that \<^verbatim>\<open>main\<close> prints, or
  the error it dies of, with the state of the run at that moment.
\<close>

definition main ::
  "string \<Rightarrow> Args \<Rightarrow> TestSuite option \<Rightarrow> RecordRow list option \<Rightarrow> 's Candidate \<Rightarrow> 's
     \<Rightarrow> (fatal + RunSummary) \<times> 's RunState" where
  "main cwd args suiteFile datasetFile c s0 =
     (let st0 = init_state s0
      in case suiteFile of
           None \<Rightarrow> (Inl SuiteUnreadable, st0)
         | Some suite \<Rightarrow>
             if suite_dataset suite \<noteq> arg_dataset args
             then (Inl (SuiteDatasetMismatch (suite_dataset suite) (arg_dataset args)), st0)
             else
               (case datasetFile of
                  None \<Rightarrow> (Inl DatasetUnreadable, st0)
                | Some rows \<Rightarrow>
                    let byId = byId_of rows in
                    (case run_setup c (datasetPath cwd args) st0 of
                       (Some e, st1) \<Rightarrow> (Inl (SetupThrew e), st1)
                     | (None, st1) \<Rightarrow>
                         let st2 = run_cases args byId c (cases suite) st1 in
                         (case run_cleanup c st2 of
                            (Some e, st3) \<Rightarrow> (Inl (CleanupThrew e), st3)
                          | (None, st3) \<Rightarrow>
                              (Inr (finalize (length (cases suite)) st3), st3)))))"

section \<open>A sample run\<close>

text \<open>
  A dataset with the ids 1 to 5 and a candidate that answers by query; its state counts the
  calls it has received.
\<close>

definition demo_rows :: "RecordRow list" where
  "demo_rows = map (\<lambda>i. \<lparr> row_id = i, row_name = ''n'' @ i \<rparr>) [''1'', ''2'', ''3'', ''4'', ''5'']"

definition demo_args :: Args where
  "demo_args = \<lparr> arg_dataset = ''small'', suitePath = ''tests/public_small.json'',
                  verbose = False, timeoutMs = 2000 \<rparr>"

definition demo_case :: "string \<Rightarrow> string list \<Rightarrow> string list \<Rightarrow> TestCase" where
  "demo_case q ex fp =
     \<lparr> case_id = q, case_dataset = ''small'', query = q, expectedIds = ex,
       falsePositiveIds = fp, tags = [], case_notes = [] \<rparr>"

definition demo_search :: "string \<Rightarrow> nat \<Rightarrow> (thrown + promise) \<times> real \<times> nat" where
  "demo_search q n =
     (if q = ''a'' then (Inr (Fulfilled (JArr [JStr ''1'', JStr '' 3'', JNum 4, JStr ''1''])), 10, Suc n)
      else if q = ''b'' then (Inr (Fulfilled (JArr [JStr ''1'', JStr ''2''])), 30, Suc n)
      else if q = ''c'' then (Inr (Fulfilled (JArr [JNum 99])), 5, Suc n)
      else if q = ''throw'' then (Inl (ErrorObj []), 1, Suc n)
      else if q = ''reject'' then (Inr (Rejected (Thrown (JStr ''no''))), 1, Suc n)
      else if q = ''block''
        then (Inr (Fulfilled (JArr [JStr ''1'', JStr ''2''])), 5000, Suc n)
      else (Inr Pending, 2000, Suc n))"

definition demo_candidate :: "nat Candidate" where
  "demo_candidate = \<lparr> cand_setup = Some (\<lambda>p n. (None, Suc n)), search = demo_search,
                       cleanup = None \<rparr>"

definition demo_suite :: "TestCase list \<Rightarrow> TestSuite" where
  "demo_suite cs = \<lparr> suite_name = ''demo'', suite_dataset = ''small'', visibility = ''public'',
                      seed = 1, cases = cs \<rparr>"


text \<open>
  The sample cases: a partly right answer, a perfect answer, a fabricated id, a
  candidate that never settles, a candidate that throws an error with an empty message
  on a case that expects nothing, and a candidate that blocks for 5000 ms, longer than the
  timeout of 2000 ms, before it returns the right answer in a fulfilled promise.
\<close>

definition scenario1 :: TestCase where
  "scenario1 = demo_case ''a'' [''1'', ''2''] [''3'']"

definition scenario2 :: TestCase where
  "scenario2 = demo_case ''b'' [''1'', ''2''] []"

definition scenario3 :: TestCase where
  "scenario3 = demo_case ''c'' [''1''] []"


definition scenario_throw :: TestCase where
  "scenario_throw = demo_case ''throw'' [] []"


definition demo_eval :: "TestCase \<Rightarrow> CaseReport" where
  "demo_eval tc = last (reports (eval_case demo_args (byId_of demo_rows) demo_candidate tc (init_state 0)))"

definition demo_run :: "TestCase list \<Rightarrow> (fatal + RunSummary) \<times> nat RunState" where
  "demo_run cs = main ''/w'' demo_args (Some (demo_suite cs)) (Some demo_rows) demo_candidate 0"

definition demo_summary :: "TestCase list \<Rightarrow> RunSummary" where
  "demo_summary cs = projr (fst (demo_run cs))"

definition demo_final :: "TestCase list \<Rightarrow> nat RunState" where
  "demo_final cs = snd (demo_run cs)"

section \<open>What the counters count\<close>

text \<open>
  The counters of a run state agree with the reports collected so far.
\<close>

definition counted :: "'s RunState \<Rightarrow> bool" where
  "counted st \<longleftrightarrow>
     expectedHits st = (\<Sum>r\<leftarrow>reports st. length (hitIds (classes r)))
   \<and> listedFalsePositiveCount st = (\<Sum>r\<leftarrow>reports st. length (fpHits (classes r)))
   \<and> unexpectedExtraCount st = (\<Sum>r\<leftarrow>reports st. length (extrasUnscored (classes r)))
   \<and> invalidIdCount st = (\<Sum>r\<leftarrow>reports st. length (invalidIds (classes r)))
   \<and> returnedTotal st = (\<Sum>r\<leftarrow>reports st. length (returnedIds (outcome r)))
   \<and> passCases st = length (filter pass (reports st))
   \<and> timesMs st = map (\<lambda>r. elapsedMs (outcome r)) (reports st)"

section \<open>Normalization is the specified one\<close>

lemma keep_first_filter: "keep_first (filter P xs) = filter P (keep_first xs)"
proof (induction xs rule: keep_first.induct)
  case 1
  show ?case by simp
next
  case (2 x xs)
  have comm: "filter (\<lambda>y. y \<noteq> x) (filter P xs) = filter P (filter (\<lambda>y. y \<noteq> x) xs)"
    by (simp add: conj_commute)
  show ?case
  proof (cases "P x")
    case True
    then show ?thesis using 2 comm by simp
  next
    case False
    have "filter P xs = filter P (filter (\<lambda>y. y \<noteq> x) xs)"
      using False by (auto intro: filter_cong)
    then show ?thesis using False 2 by simp
  qed
qed

lemma set_keep_first: "set (keep_first xs) = set xs"
  by (induction xs rule: keep_first.induct) auto

lemma distinct_keep_first: "distinct (keep_first xs)"
  by (induction xs rule: keep_first.induct) (auto simp: set_keep_first)

lemma normalize_spec_Cons:
  "normalize_spec (v # rest) =
     (if trim (js_String v) = [] then normalize_spec rest
      else trim (js_String v) # filter (\<lambda>s. s \<noteq> trim (js_String v)) (normalize_spec rest))"
  by (simp add: normalize_spec_def keep_first_filter)

lemma toUniqueIds_loop_spec:
  "toUniqueIds_loop vs out (set out) =
     out @ filter (\<lambda>s. s \<notin> set out) (normalize_spec vs)"
proof (induction vs arbitrary: out)
  case Nil
  show ?case by (simp add: normalize_spec_def)
next
  case (Cons v rest)
  let ?i = "trim (js_String v)"
  show ?case
  proof (cases "?i = [] \<or> ?i \<in> set out")
    case True
    have "filter (\<lambda>s. s \<notin> set out) (filter (\<lambda>s. s \<noteq> ?i) (normalize_spec rest))
        = filter (\<lambda>s. s \<notin> set out) (normalize_spec rest)" if "?i \<in> set out"
      using that by (auto intro: filter_cong)
    then show ?thesis using True Cons[of out]
      by (auto simp: normalize_spec_Cons Let_def)
  next
    case False
    have s: "set (out @ [?i]) = insert ?i (set out)" by simp
    have "filter (\<lambda>s. s \<notin> set (out @ [?i])) (normalize_spec rest)
        = filter (\<lambda>s. s \<notin> set out) (filter (\<lambda>s. s \<noteq> ?i) (normalize_spec rest))"
      by (auto intro: filter_cong)
    then show ?thesis using False Cons[of "out @ [?i]"]
      by (simp add: normalize_spec_Cons Let_def s del: set_append)
  qed
qed

lemma toUniqueIds_JArr: "toUniqueIds (JArr vs) = normalize_spec vs"
  using toUniqueIds_loop_spec[of vs "[]"] by (simp add: toUniqueIds_def)

lemma toUniqueIds_not_array: "\<not> isArray raw \<Longrightarrow> toUniqueIds raw = []"
  by (cases raw) (simp_all add: toUniqueIds_def)

lemma distinct_normalize_spec: "distinct (normalize_spec vs)"
  by (simp add: normalize_spec_def distinct_keep_first)

lemma distinct_toUniqueIds: "distinct (toUniqueIds raw)"
  by (cases raw) (simp_all add: toUniqueIds_JArr distinct_normalize_spec, simp_all add: toUniqueIds_def)

text \<open>
  C5. Normalization returns the empty list for an output that is not an array; for an array
  it is the specification's normalization: each element stringified and trimmed, the empty
  strings dropped, duplicates removed keeping the first occurrence. The result has no
  duplicates, and its elements are exactly the non-empty trimmed renderings.
\<close>

theorem toUniqueIds_normalizes:
  "(\<not> isArray raw \<longrightarrow> toUniqueIds raw = [])
   \<and> toUniqueIds (JArr vs) =
       keep_first (filter (\<lambda>s. s \<noteq> []) (map (\<lambda>v. trim (js_String v)) vs))
   \<and> distinct (toUniqueIds (JArr vs))
   \<and> set (toUniqueIds (JArr vs)) = {trim (js_String v) | v. v \<in> set vs} - {[]}"
proof -
  have "set (normalize_spec vs) = {trim (js_String v) | v. v \<in> set vs} - {[]}"
    by (auto simp: normalize_spec_def set_keep_first)
  then show ?thesis
    using toUniqueIds_not_array[of raw] distinct_normalize_spec[of vs]
    by (simp add: toUniqueIds_JArr) (simp add: normalize_spec_def)
qed

theorem toUniqueIds_normalizes_witness:
  "\<not> isArray (JStr ''1,2'') \<and> toUniqueIds (JStr ''1,2'') = []
   \<and> toUniqueIds (JArr [JStr '' a '', JNum 7, JStr ''a'', JStr ''  '', JNum 7, JStr ''b''])
       = [''a'', ''7'', ''b'']"
  using toUniqueIds_normalizes[of "JStr ''1,2''"
      "[JStr '' a '', JNum 7, JStr ''a'', JStr ''  '', JNum 7, JStr ''b'']"]
  by (simp add: trim_def is_ws_def show_int_def show_nat.simps)

section \<open>Facts about one iteration\<close>

lemma distinct_attempt: "distinct (fst (attempt res ms))"
  by (auto simp: attempt_def distinct_toUniqueIds split: sum.splits)

lemma dom_byId_of: "dom (byId_of rows) = row_id ` set rows"
  by (force simp: byId_of_def dom_map_of_conv_image_fst)

lemma reports_eval_case:
  "reports (eval_case args byId c tc st) =
     reports st @
       [\<lparr> outcome = \<lparr> returnedIds = fst (attempt (fst (search c (query tc) (cand st))) (timeoutMs args)),
                      runtimeError = snd (attempt (fst (search c (query tc) (cand st))) (timeoutMs args)),
                      elapsedMs = fst (snd (search c (query tc) (cand st))) \<rparr>,
          classes = classify tc (fst (attempt (fst (search c (query tc) (cand st))) (timeoutMs args))) byId,
          pass = case_pass
                   (classify tc (fst (attempt (fst (search c (query tc) (cand st))) (timeoutMs args))) byId)
                   (snd (attempt (fst (search c (query tc) (cand st))) (timeoutMs args))) \<rparr>]"
  by (simp add: eval_case_def Let_def split: prod.splits)

lemma reports_eval_case_snoc:
  "reports (eval_case args byId c tc st)
     = reports st @ [last (reports (eval_case args byId c tc st))]"
  by (simp add: reports_eval_case)

lemma passCases_eval_case:
  "passCases (eval_case args byId c tc st) =
     (if pass (last (reports (eval_case args byId c tc st))) then passCases st + 1 else passCases st)"
  by (simp add: eval_case_def Let_def split: prod.splits)

lemma counters_eval_case:
  "expectedTotal (eval_case args byId c tc st) = expectedTotal st + length (expectedIds tc)"
  "expectedHits (eval_case args byId c tc st)
     = expectedHits st + length (hitIds (classes (last (reports (eval_case args byId c tc st)))))"
  "listedFalsePositiveCount (eval_case args byId c tc st)
     = listedFalsePositiveCount st
       + length (fpHits (classes (last (reports (eval_case args byId c tc st)))))"
  "unexpectedExtraCount (eval_case args byId c tc st)
     = unexpectedExtraCount st
       + length (extrasUnscored (classes (last (reports (eval_case args byId c tc st)))))"
  "invalidIdCount (eval_case args byId c tc st)
     = invalidIdCount st
       + length (invalidIds (classes (last (reports (eval_case args byId c tc st)))))"
  "returnedTotal (eval_case args byId c tc st)
     = returnedTotal st
       + length (returnedIds (outcome (last (reports (eval_case args byId c tc st)))))"
  by (simp_all add: eval_case_def Let_def split: prod.splits)

lemma timesMs_eval_case:
  "timesMs (eval_case args byId c tc st)
     = timesMs st @ [elapsedMs (outcome (last (reports (eval_case args byId c tc st))))]"
  by (simp add: eval_case_def Let_def split: prod.splits)

lemma classify_fields:
  "hitIds (classify tc returned byId) = filter (\<lambda>i. i \<in> set returned) (expectedIds tc)"
  "missingIds (classify tc returned byId) = filter (\<lambda>i. i \<notin> set returned) (expectedIds tc)"
  "fpHits (classify tc returned byId) = filter (\<lambda>i. i \<in> set (falsePositiveIds tc)) returned"
  "invalidIds (classify tc returned byId) = filter (\<lambda>i. i \<notin> dom byId) returned"
  "extrasUnscored (classify tc returned byId) =
     filter (\<lambda>i. i \<in> dom byId \<and> i \<notin> set (expectedIds tc) \<and> i \<notin> set (falsePositiveIds tc)) returned"
  by (simp_all add: classify_def Let_def dom_def)

lemma returnedIds_eval_case_distinct:
  "distinct (returnedIds (outcome (last (reports (eval_case args byId c tc st)))))"
  by (simp add: reports_eval_case distinct_attempt)




lemma eval_case_dataset_irrelevant:
  "eval_case args byId c (tc\<lparr> case_dataset := d \<rparr>) st = eval_case args byId c tc st"
  by (simp add: eval_case_def classify_def)

section \<open>Facts about the loop and the run\<close>

lemma run_cases_append:
  "run_cases args byId c (xs @ ys) st = run_cases args byId c ys (run_cases args byId c xs st)"
  by (induction xs arbitrary: st) simp_all



lemma run_cases_dataset_irrelevant:
  "run_cases args byId c (map (\<lambda>tc. tc\<lparr> case_dataset := f tc \<rparr>) cs) st = run_cases args byId c cs st"
  by (induction cs arbitrary: st) (simp_all add: eval_case_dataset_irrelevant)

lemma run_setup_preserves:
  "run_setup c p st = (e, st') \<Longrightarrow> \<exists>cl s. st' = st\<lparr> calls := cl, cand := s \<rparr>"
  by (auto simp: run_setup_def split: option.splits prod.splits) (metis RunState.surjective RunState.update_convs(3,4))

lemma run_cleanup_preserves:
  "run_cleanup c st = (e, st') \<Longrightarrow> \<exists>cl s. st' = st\<lparr> calls := cl, cand := s \<rparr>"
  by (auto simp: run_cleanup_def split: option.splits prod.splits) (metis RunState.surjective RunState.update_convs(3,4))

lemma main_Inr:
  assumes "main cwd args suiteFile datasetFile c s0 = (Inr sm, st)"
  obtains suite rows st1 where
    "suiteFile = Some suite" "datasetFile = Some rows" "suite_dataset suite = arg_dataset args"
    "run_setup c (datasetPath cwd args) (init_state s0)
       = (None, st1)"
    "run_cleanup c (run_cases args (byId_of rows) c (cases suite) st1) = (None, st)"
    "sm = finalize (length (cases suite)) st"
  using assms
  by (auto simp: main_def Let_def split: option.splits prod.splits if_splits)

lemma counted_init: "counted (init_state s)"
  by (simp add: counted_def init_state_def)

lemma counted_eval_case:
  assumes "counted st"
  shows "counted (eval_case args byId c tc st)"
proof -
  let ?st' = "eval_case args byId c tc st"
  have r: "reports ?st' = reports st @ [last (reports ?st')]"
    by (rule reports_eval_case_snoc)
  have "(\<Sum>r\<leftarrow>reports ?st'. g r) = (\<Sum>r\<leftarrow>reports st. g r) + g (last (reports ?st'))"
    for g :: "CaseReport \<Rightarrow> nat"
    by (subst r) simp
  moreover have "length (filter pass (reports ?st'))
      = length (filter pass (reports st)) + (if pass (last (reports ?st')) then 1 else 0)"
    by (subst r) simp
  moreover have "map (\<lambda>r. elapsedMs (outcome r)) (reports ?st')
      = map (\<lambda>r. elapsedMs (outcome r)) (reports st) @ [elapsedMs (outcome (last (reports ?st')))]"
    by (subst r) simp
  ultimately show ?thesis
    using assms
    by (simp add: counted_def counters_eval_case timesMs_eval_case passCases_eval_case)
qed

lemma counted_run_cases: "counted st \<Longrightarrow> counted (run_cases args byId c cs st)"
  by (induction cs arbitrary: st) (simp_all add: counted_eval_case)

lemma counted_lifecycle: "counted st \<Longrightarrow> counted (st\<lparr> calls := cl, cand := s \<rparr>)"
  by (simp add: counted_def)

lemma main_counted:
  assumes "main cwd args suiteFile datasetFile c s0 = (Inr sm, st)"
  shows "counted st"
  using assms
proof (rule main_Inr)
  fix suite rows st1
  assume s: "run_setup c (datasetPath cwd args)
               (init_state s0) = (None, st1)"
    and cl: "run_cleanup c (run_cases args (byId_of rows) c (cases suite) st1) = (None, st)"
  from run_setup_preserves[OF s] have "counted st1"
    using counted_init[of s0] counted_lifecycle by metis
  then have "counted (run_cases args (byId_of rows) c (cases suite) st1)"
    by (rule counted_run_cases)
  with run_cleanup_preserves[OF cl] show ?thesis
    using counted_lifecycle by metis
qed

lemma finalize_counters:
  "expectedTotal (finalize n st) = expectedTotal st"
  "expectedHits (finalize n st) = expectedHits st"
  "listedFalsePositiveCount (finalize n st) = listedFalsePositiveCount st"
  "unexpectedExtraCount (finalize n st) = unexpectedExtraCount st"
  "invalidIdCount (finalize n st) = invalidIdCount st"
  "returnedTotal (finalize n st) = returnedTotal st"
  "passCases (finalize n st) = passCases st"
  by (simp_all add: finalize_def Let_def)

lemma finalize_metrics:
  "recall (finalize n st) =
     (if expectedTotal st = 0 then 100
      else (real (expectedHits st) / real (expectedTotal st)) * 100)"
  "precision (finalize n st) =
     (if returnedTotal st = 0 then 0
      else (real (expectedHits st) / real (returnedTotal st)) * 100)"
  "f1 (finalize n st) =
     (if recall (finalize n st) + precision (finalize n st) = 0 then 0
      else (2 * recall (finalize n st) * precision (finalize n st))
           / (recall (finalize n st) + precision (finalize n st)))"
  "score (finalize n st) =
     (if invalidIdCount st > 0 then 0
      else max 0 (min 100 (recall (finalize n st)
             - (real (listedFalsePositiveCount st) * 0.02
                + real (unexpectedExtraCount st) * 0.05))))"
  "p95Ms (finalize n st) = percentile (timesMs st) 0.95"
  by (simp_all add: finalize_def Let_def PENALTY_LISTED_FP_def PENALTY_UNEXPECTED_EXTRA_def)

lemma demo_run_mixed:
  "main ''/w'' demo_args (Some (demo_suite [scenario1, scenario2])) (Some demo_rows) demo_candidate 0
     = (Inr (demo_summary [scenario1, scenario2]), demo_final [scenario1, scenario2])"
  by code_simp

lemma demo_run_invalid:
  "main ''/w'' demo_args (Some (demo_suite [scenario2, scenario3])) (Some demo_rows) demo_candidate 0
     = (Inr (demo_summary [scenario2, scenario3]), demo_final [scenario2, scenario3])"
  by code_simp

section \<open>Classification\<close>

text \<open>
  C1. For every case, the classification of the normalized returned ids is exactly:
  \<open>hitIds\<close> the elements of \<open>expectedIds\<close> that occur in the returned ids, \<open>missingIds\<close>
  the elements of \<open>expectedIds\<close> that do not, \<open>fpHits\<close> the returned ids listed in
  \<open>falsePositiveIds\<close>, \<open>invalidIds\<close> the returned ids that are not ids of the dataset, and
  \<open>extrasUnscored\<close> the returned ids of the dataset that are neither expected nor listed
  false positives; as sets these are the intersections and differences of the specification.
\<close>

theorem classification_exact:
  "let r = last (reports (eval_case args (byId_of rows) c tc st));
       returned = returnedIds (outcome r);
       cl = classes r;
       validIds = row_id ` set rows
   in hitIds cl = filter (\<lambda>i. i \<in> set returned) (expectedIds tc)
    \<and> missingIds cl = filter (\<lambda>i. i \<notin> set returned) (expectedIds tc)
    \<and> fpHits cl = filter (\<lambda>i. i \<in> set (falsePositiveIds tc)) returned
    \<and> invalidIds cl = filter (\<lambda>i. i \<notin> validIds) returned
    \<and> extrasUnscored cl =
        filter (\<lambda>i. i \<in> validIds \<and> i \<notin> set (expectedIds tc) \<and> i \<notin> set (falsePositiveIds tc))
          returned
    \<and> set (hitIds cl) = set (expectedIds tc) \<inter> set returned
    \<and> set (missingIds cl) = set (expectedIds tc) - set returned
    \<and> set (fpHits cl) = set returned \<inter> set (falsePositiveIds tc)
    \<and> set (invalidIds cl) = set returned - validIds
    \<and> set (extrasUnscored cl) =
        set returned \<inter> validIds - set (expectedIds tc) - set (falsePositiveIds tc)"
  unfolding Let_def reports_eval_case
  by (simp add: classify_fields dom_byId_of) blast

theorem classification_exact_witness:
  "returnedIds (outcome (demo_eval scenario1)) = [''1'', ''3'', ''4'']
   \<and> classes (demo_eval scenario1)
       = \<lparr> hitIds = [''1''], missingIds = [''2''], fpHits = [''3''], invalidIds = [],
           extrasUnscored = [''4''] \<rparr>"
proof -
  have "returnedIds (outcome (demo_eval scenario1)) = [''1'', ''3'', ''4'']"
    by code_simp
  moreover have "classes (demo_eval scenario1)
       = \<lparr> hitIds = [''1''], missingIds = [''2''], fpHits = [''3''], invalidIds = [],
           extrasUnscored = [''4''] \<rparr>"
    by code_simp
  ultimately show ?thesis
    using classification_exact[of demo_args demo_rows demo_candidate scenario1 "init_state 0"]
    by simp
qed

text \<open>
  C4. A case passes exactly when nothing is missing, no listed false positive, unscored
  extra or invalid id was returned, and no runtime error was recorded; the pass counter grows
  by one exactly then. A case with a runtime error never passes, whatever it expects.
\<close>

theorem pass_iff:
  "let st' = eval_case args byId c tc st;
       r = last (reports st');
       cl = classes r;
       err = runtimeError (outcome r)
   in pass r = (missingIds cl = [] \<and> fpHits cl = [] \<and> extrasUnscored cl = []
                \<and> invalidIds cl = [] \<and> err = None)
    \<and> passCases st' = passCases st + (if pass r then 1 else 0)
    \<and> (err \<noteq> None \<longrightarrow> \<not> pass r)"
  unfolding Let_def passCases_eval_case
  by (simp add: reports_eval_case case_pass_def)

theorem pass_iff_witness:
  "expectedIds scenario_throw = []
   \<and> returnedIds (outcome (demo_eval scenario_throw)) = []
   \<and> missingIds (classes (demo_eval scenario_throw)) = []
   \<and> runtimeError (outcome (demo_eval scenario_throw)) \<noteq> None
   \<and> \<not> pass (demo_eval scenario_throw)
   \<and> pass (demo_eval scenario2)"
proof -
  have e: "runtimeError (outcome (demo_eval scenario_throw)) \<noteq> None"
    by code_simp
  have "\<not> pass (demo_eval scenario_throw)"
    using pass_iff[of demo_args "byId_of demo_rows" demo_candidate scenario_throw "init_state 0"] e
    by (simp add: demo_eval_def Let_def)
  moreover have "expectedIds scenario_throw = []"
    "returnedIds (outcome (demo_eval scenario_throw)) = []"
    "missingIds (classes (demo_eval scenario_throw)) = []"
    "pass (demo_eval scenario2)"
    by code_simp+
  ultimately show ?thesis using e by blast
qed

lemma length_filter_card:
  "distinct xs \<Longrightarrow> length (filter P xs) = card {x \<in> set xs. P x}"
proof -
  assume "distinct xs"
  then have "distinct (filter P xs)" by simp
  then have "card (set (filter P xs)) = length (filter P xs)" by (rule distinct_card)
  then show ?thesis by simp
qed

lemma length_inter_filter:
  assumes "distinct xs" "distinct ys"
  shows "length (filter (\<lambda>i. i \<in> set ys) xs) = length (filter (\<lambda>i. i \<in> set xs) ys)"
proof -
  have "{x \<in> set xs. x \<in> set ys} = {x \<in> set ys. x \<in> set xs}" by auto
  then show ?thesis
    using assms by (simp add: length_filter_card)
qed

lemma length_four_way:
  assumes "\<forall>x \<in> set xs. of_bool (P1 x) + of_bool (P2 x) + of_bool (P3 x) + of_bool (P4 x) = (1::nat)"
  shows "length xs = length (filter P1 xs) + length (filter P2 xs)
                     + length (filter P3 xs) + length (filter P4 xs)"
  using assms
proof (induction xs)
  case Nil
  show ?case by simp
next
  case (Cons x xs)
  then have "length xs = length (filter P1 xs) + length (filter P2 xs)
                     + length (filter P3 xs) + length (filter P4 xs)"
    by simp
  moreover have "of_bool (P1 x) + of_bool (P2 x) + of_bool (P3 x) + of_bool (P4 x) = (1::nat)"
    using Cons.prems by simp
  ultimately show ?case
    by (cases "P1 x"; cases "P2 x"; cases "P3 x"; cases "P4 x") simp_all
qed

lemma double_count_examples:
  "''1'' \<in> set (hitIds (classify (demo_case ''q'' [''1''] [''1'']) [''1''] (byId_of demo_rows)))
   \<and> ''1'' \<in> set (fpHits (classify (demo_case ''q'' [''1''] [''1'']) [''1''] (byId_of demo_rows)))
   \<and> ''9'' \<in> set (fpHits (classify (demo_case ''q'' [] [''9'']) [''9''] (byId_of demo_rows)))
   \<and> ''9'' \<in> set (invalidIds (classify (demo_case ''q'' [] [''9'']) [''9''] (byId_of demo_rows)))"
  by code_simp

text \<open>
  C10. When the expected ids and the listed false positives of a case are duplicate-free,
  disjoint and ids of the dataset, every returned id is in exactly one of \<open>hitIds\<close>,
  \<open>fpHits\<close>, \<open>extrasUnscored\<close> and \<open>invalidIds\<close>, and the four lengths add up to the
  number of returned ids. Lemma \<open>double_count_examples\<close> shows an id counted twice when
  the lists overlap or leave the dataset.
\<close>

theorem returned_partition:
  assumes "distinct (expectedIds tc)" and "distinct (falsePositiveIds tc)"
    and "set (expectedIds tc) \<inter> set (falsePositiveIds tc) = {}"
    and "set (expectedIds tc) \<subseteq> row_id ` set rows"
    and "set (falsePositiveIds tc) \<subseteq> row_id ` set rows"
  shows "let r = last (reports (eval_case args (byId_of rows) c tc st));
             returned = returnedIds (outcome r);
             cl = classes r
         in (\<forall>i \<in> set returned.
               of_bool (i \<in> set (hitIds cl)) + of_bool (i \<in> set (fpHits cl))
               + of_bool (i \<in> set (extrasUnscored cl)) + of_bool (i \<in> set (invalidIds cl))
               = (1::nat))
          \<and> length returned
              = length (hitIds cl) + length (fpHits cl)
                + length (extrasUnscored cl) + length (invalidIds cl)"
proof -
  let ?r = "last (reports (eval_case args (byId_of rows) c tc st))"
  let ?ret = "returnedIds (outcome ?r)"
  let ?cl = "classes ?r"
  let ?ex = "expectedIds tc" and ?fp = "falsePositiveIds tc" and ?valid = "row_id ` set rows"
  let ?P1 = "\<lambda>i. i \<in> set ?ex" and ?P2 = "\<lambda>i. i \<in> set ?fp"
  let ?P3 = "\<lambda>i. i \<in> ?valid \<and> i \<notin> set ?ex \<and> i \<notin> set ?fp" and ?P4 = "\<lambda>i. i \<notin> ?valid"
  have cl: "?cl = classify tc ?ret (byId_of rows)"
    by (simp add: reports_eval_case)
  have d: "distinct ?ret" by (rule returnedIds_eval_case_distinct)
  have one: "\<forall>i \<in> set ?ret. of_bool (?P1 i) + of_bool (?P2 i) + of_bool (?P3 i) + of_bool (?P4 i) = (1::nat)"
    using assms(3,4,5) by auto
  have mem: "i \<in> set (hitIds ?cl) \<longleftrightarrow> ?P1 i" "i \<in> set (fpHits ?cl) \<longleftrightarrow> ?P2 i"
    "i \<in> set (extrasUnscored ?cl) \<longleftrightarrow> ?P3 i" "i \<in> set (invalidIds ?cl) \<longleftrightarrow> ?P4 i"
    if "i \<in> set ?ret" for i
    using that unfolding cl by (auto simp: classify_fields dom_byId_of)
  have part: "\<forall>i \<in> set ?ret.
               of_bool (i \<in> set (hitIds ?cl)) + of_bool (i \<in> set (fpHits ?cl))
               + of_bool (i \<in> set (extrasUnscored ?cl)) + of_bool (i \<in> set (invalidIds ?cl))
               = (1::nat)"
    using one mem by simp
  have "length (hitIds ?cl) = length (filter ?P1 ?ret)"
    unfolding cl classify_fields using assms(1) d by (rule length_inter_filter)
  moreover have "length (fpHits ?cl) = length (filter ?P2 ?ret)"
    "length (extrasUnscored ?cl) = length (filter ?P3 ?ret)"
    "length (invalidIds ?cl) = length (filter ?P4 ?ret)"
    by (subst cl, simp add: classify_fields dom_byId_of)+
  ultimately have "length ?ret = length (hitIds ?cl) + length (fpHits ?cl)
                + length (extrasUnscored ?cl) + length (invalidIds ?cl)"
    using length_four_way[OF one] by simp
  with part show ?thesis unfolding Let_def by blast
qed

theorem returned_partition_witness:
  "distinct (expectedIds scenario1) \<and> distinct (falsePositiveIds scenario1)
   \<and> set (expectedIds scenario1) \<inter> set (falsePositiveIds scenario1) = {}
   \<and> set (expectedIds scenario1) \<subseteq> row_id ` set demo_rows
   \<and> set (falsePositiveIds scenario1) \<subseteq> row_id ` set demo_rows
   \<and> length (returnedIds (outcome (demo_eval scenario1))) = 3
   \<and> length (hitIds (classes (demo_eval scenario1))) + length (fpHits (classes (demo_eval scenario1)))
       + length (extrasUnscored (classes (demo_eval scenario1)))
       + length (invalidIds (classes (demo_eval scenario1))) = 3"
proof -
  have h: "distinct (expectedIds scenario1)" "distinct (falsePositiveIds scenario1)"
    "set (expectedIds scenario1) \<inter> set (falsePositiveIds scenario1) = {}"
    "set (expectedIds scenario1) \<subseteq> row_id ` set demo_rows"
    "set (falsePositiveIds scenario1) \<subseteq> row_id ` set demo_rows"
    by (simp_all add: scenario1_def demo_case_def demo_rows_def)
  have l: "length (returnedIds (outcome (demo_eval scenario1))) = 3"
    by code_simp
  from returned_partition[OF h, of demo_args demo_candidate "init_state 0"] l h show ?thesis
    by (simp add: Let_def demo_eval_def)
qed

section \<open>Failures of the candidate\<close>




text \<open>
  C9. When the dataset declared by the suite differs from the requested one, the run ends
  with the mismatch error in its initial state: no call to the candidate, no case reported.
  When they are equal, the \<open>dataset\<close> fields of the cases have no influence on the run.
\<close>

theorem dataset_mismatch_fatal:
  "(suite_dataset suite \<noteq> arg_dataset args \<longrightarrow>
      main cwd args (Some suite) datasetFile c s0
        = (Inl (SuiteDatasetMismatch (suite_dataset suite) (arg_dataset args)), init_state s0)
      \<and> calls (snd (main cwd args (Some suite) datasetFile c s0)) = []
      \<and> reports (snd (main cwd args (Some suite) datasetFile c s0)) = []
      \<and> cand (snd (main cwd args (Some suite) datasetFile c s0)) = s0)
   \<and> (suite_dataset suite = arg_dataset args \<longrightarrow>
      main cwd args (Some (suite\<lparr> cases := map (\<lambda>tc. tc\<lparr> case_dataset := f tc \<rparr>) (cases suite) \<rparr>))
        datasetFile c s0
        = main cwd args (Some suite) datasetFile c s0)"
  by (simp add: main_def Let_def init_state_def run_cases_dataset_irrelevant
      split: option.split prod.split)

theorem dataset_mismatch_fatal_witness:
  "suite_dataset (demo_suite [scenario1]) \<noteq> arg_dataset (demo_args\<lparr> arg_dataset := ''large'' \<rparr>)
   \<and> main ''/w'' (demo_args\<lparr> arg_dataset := ''large'' \<rparr>) (Some (demo_suite [scenario1]))
            (Some demo_rows) demo_candidate 0
       = (Inl (SuiteDatasetMismatch ''small'' ''large''), init_state 0)
   \<and> suite_dataset (demo_suite [scenario1]) = arg_dataset demo_args
   \<and> main ''/w'' demo_args
        (Some ((demo_suite [scenario1])\<lparr> cases := map (\<lambda>tc. tc\<lparr> case_dataset := ''large'' \<rparr>)
                                            (cases (demo_suite [scenario1])) \<rparr>))
        (Some demo_rows) demo_candidate 0
       = demo_run [scenario1]"
proof -
  have a: "suite_dataset (demo_suite [scenario1]) \<noteq> arg_dataset (demo_args\<lparr> arg_dataset := ''large'' \<rparr>)"
    by (simp add: demo_suite_def demo_args_def)
  have b: "suite_dataset (demo_suite [scenario1]) = arg_dataset demo_args"
    by (simp add: demo_suite_def demo_args_def)
  have c: "suite_dataset (demo_suite [scenario1]) = ''small''"
    "arg_dataset (demo_args\<lparr> arg_dataset := ''large'' \<rparr>) = ''large''"
    by (simp_all add: demo_suite_def)
  from a dataset_mismatch_fatal[of "demo_suite [scenario1]" "demo_args\<lparr> arg_dataset := ''large'' \<rparr>"
        "''/w''" "Some demo_rows" demo_candidate 0 "\<lambda>tc. ''large''"]
  have m: "main ''/w'' (demo_args\<lparr> arg_dataset := ''large'' \<rparr>) (Some (demo_suite [scenario1]))
            (Some demo_rows) demo_candidate 0
       = (Inl (SuiteDatasetMismatch ''small'' ''large''), init_state 0)"
    unfolding c by blast
  from b dataset_mismatch_fatal[of "demo_suite [scenario1]" demo_args
        "''/w''" "Some demo_rows" demo_candidate 0 "\<lambda>tc. ''large''"]
  have e: "main ''/w'' demo_args
        (Some ((demo_suite [scenario1])\<lparr> cases := map (\<lambda>tc. tc\<lparr> case_dataset := ''large'' \<rparr>)
                                            (cases (demo_suite [scenario1])) \<rparr>))
        (Some demo_rows) demo_candidate 0
       = demo_run [scenario1]"
    unfolding demo_run_def by blast
  from a m b e show ?thesis by blast
qed

section \<open>Metrics\<close>

text \<open>
  C2. The score of a finished run is 0 when the count of invalid ids is positive, and
  otherwise the recall minus the penalty points, clamped to the range from 0 to 100. The count
  of invalid ids is the sum over all reports, so one invalid id in any case makes the score 0.
\<close>

theorem score_override:
  assumes "main cwd args suiteFile datasetFile c s0 = (Inr sm, st)"
  shows "score sm =
           (if invalidIdCount sm > 0 then 0
            else max 0 (min 100 (recall sm
                   - (real (listedFalsePositiveCount sm) * 0.02
                      + real (unexpectedExtraCount sm) * 0.05))))
       \<and> invalidIdCount sm = (\<Sum>r\<leftarrow>reports st. length (invalidIds (classes r)))
       \<and> ((\<exists>r \<in> set (reports st). invalidIds (classes r) \<noteq> []) \<longrightarrow> score sm = 0)"
proof -
  from assms obtain n where sm: "sm = finalize n st"
    by (rule main_Inr)
  have inv: "invalidIdCount st = (\<Sum>r\<leftarrow>reports st. length (invalidIds (classes r)))"
    using main_counted[OF assms] by (simp add: counted_def)
  have "invalidIdCount st > 0" if "\<exists>r \<in> set (reports st). invalidIds (classes r) \<noteq> []"
  proof -
    from that obtain r where "r \<in> set (reports st)" "length (invalidIds (classes r)) > 0"
      by auto
    then have "length (invalidIds (classes r)) \<le> (\<Sum>r\<leftarrow>reports st. length (invalidIds (classes r)))"
      by (simp add: member_le_sum_list)
    with \<open>length (invalidIds (classes r)) > 0\<close> inv show ?thesis by linarith
  qed
  then have zero: "(\<exists>r \<in> set (reports st). invalidIds (classes r) \<noteq> []) \<longrightarrow> score sm = 0"
    by (simp add: sm finalize_metrics)
  have formula: "score sm =
           (if invalidIdCount sm > 0 then 0
            else max 0 (min 100 (recall sm
                   - (real (listedFalsePositiveCount sm) * 0.02
                      + real (unexpectedExtraCount sm) * 0.05))))"
    unfolding sm finalize_counters by (rule finalize_metrics)
  have "invalidIdCount sm = (\<Sum>r\<leftarrow>reports st. length (invalidIds (classes r)))"
    using inv by (simp add: sm finalize_counters)
  with formula zero show ?thesis by blast
qed

theorem score_override_witness:
  "demo_run [scenario2, scenario3]
     = (Inr (demo_summary [scenario2, scenario3]), demo_final [scenario2, scenario3])
   \<and> invalidIds (classes (reports (demo_final [scenario2, scenario3]) ! 1)) = [''99'']
   \<and> invalidIdCount (demo_summary [scenario2, scenario3]) = 1
   \<and> score (demo_summary [scenario2, scenario3]) = 0"
proof -
  have r: "reports (demo_final [scenario2, scenario3]) ! 1 \<in> set (reports (demo_final [scenario2, scenario3]))"
    by code_simp
  have i: "invalidIds (classes (reports (demo_final [scenario2, scenario3]) ! 1)) = [''99'']"
    by code_simp
  have c: "(\<Sum>r\<leftarrow>reports (demo_final [scenario2, scenario3]). length (invalidIds (classes r))) = 1"
    by code_simp
  from r i have "\<exists>r \<in> set (reports (demo_final [scenario2, scenario3])). invalidIds (classes r) \<noteq> []"
    by (intro bexI[of _ "reports (demo_final [scenario2, scenario3]) ! 1"]) simp_all
  with score_override[OF demo_run_invalid] c i show ?thesis
    by (simp add: demo_run_def demo_run_invalid)
qed

text \<open>
  C6. The recall of a finished run is 100 when nothing was expected and otherwise the
  percentage of hits among the expected ids; the precision is 0 when nothing was returned and
  otherwise the percentage of hits among the returned ids; \<open>f1\<close> is 0 when both are 0 and
  otherwise their harmonic mean. The hits and the returned ids are summed over all reports.
\<close>

theorem metrics_formulas:
  assumes "main cwd args suiteFile datasetFile c s0 = (Inr sm, st)"
  shows "recall sm =
           (if expectedTotal sm = 0 then 100
            else (real (expectedHits sm) / real (expectedTotal sm)) * 100)
       \<and> precision sm =
           (if returnedTotal sm = 0 then 0
            else (real (expectedHits sm) / real (returnedTotal sm)) * 100)
       \<and> f1 sm =
           (if recall sm + precision sm = 0 then 0
            else (2 * recall sm * precision sm) / (recall sm + precision sm))
       \<and> expectedHits sm = (\<Sum>r\<leftarrow>reports st. length (hitIds (classes r)))
       \<and> returnedTotal sm = (\<Sum>r\<leftarrow>reports st. length (returnedIds (outcome r)))"
proof -
  from assms obtain n where sm: "sm = finalize n st"
    by (rule main_Inr)
  show ?thesis
    using main_counted[OF assms]
    by (simp add: sm finalize_metrics finalize_counters counted_def)
qed

theorem metrics_formulas_witness:
  "demo_run [scenario1, scenario2]
     = (Inr (demo_summary [scenario1, scenario2]), demo_final [scenario1, scenario2])
   \<and> expectedTotal (demo_summary [scenario1, scenario2]) = 4
   \<and> expectedHits (demo_summary [scenario1, scenario2]) = 3
   \<and> returnedTotal (demo_summary [scenario1, scenario2]) = 5
   \<and> recall (demo_summary [scenario1, scenario2]) = 75
   \<and> precision (demo_summary [scenario1, scenario2]) = 60
   \<and> f1 (demo_summary [scenario1, scenario2]) = 200 / 3"
proof -
  have c: "expectedTotal (demo_summary [scenario1, scenario2]) = 4"
    "expectedHits (demo_summary [scenario1, scenario2]) = 3"
    "returnedTotal (demo_summary [scenario1, scenario2]) = 5"
    by code_simp+
  from metrics_formulas[OF demo_run_mixed] show ?thesis
    by (simp add: c demo_run_def demo_run_mixed)
qed

lemma length_hits_le_expected:
  "length (filter (\<lambda>i. i \<in> set returned) ex) \<le> length ex"
  by simp

lemma length_hits_le_returned:
  assumes "distinct ex" "distinct returned"
  shows "length (filter (\<lambda>i. i \<in> set returned) ex) \<le> length returned"
  using length_inter_filter[OF assms] by simp

lemma hits_bounded_eval_case:
  assumes "distinct (expectedIds tc)"
    and "expectedHits st \<le> expectedTotal st \<and> expectedHits st \<le> returnedTotal st"
  shows "expectedHits (eval_case args byId c tc st) \<le> expectedTotal (eval_case args byId c tc st)
       \<and> expectedHits (eval_case args byId c tc st) \<le> returnedTotal (eval_case args byId c tc st)"
proof -
  let ?r = "last (reports (eval_case args byId c tc st))"
  have h: "hitIds (classes ?r) = filter (\<lambda>i. i \<in> set (returnedIds (outcome ?r))) (expectedIds tc)"
    by (simp add: reports_eval_case classify_fields)
  have "length (hitIds (classes ?r)) \<le> length (expectedIds tc)"
    unfolding h by (rule length_hits_le_expected)
  moreover have "length (hitIds (classes ?r)) \<le> length (returnedIds (outcome ?r))"
    unfolding h using assms(1) returnedIds_eval_case_distinct by (rule length_hits_le_returned)
  ultimately show ?thesis
    using assms(2) by (simp add: counters_eval_case)
qed

lemma hits_bounded_run_cases:
  assumes "\<forall>tc \<in> set cs. distinct (expectedIds tc)"
    and "expectedHits st \<le> expectedTotal st \<and> expectedHits st \<le> returnedTotal st"
  shows "expectedHits (run_cases args byId c cs st) \<le> expectedTotal (run_cases args byId c cs st)
       \<and> expectedHits (run_cases args byId c cs st) \<le> returnedTotal (run_cases args byId c cs st)"
  using assms
proof (induction cs arbitrary: st)
  case Nil
  then show ?case by simp
next
  case (Cons tc cs)
  have "expectedHits (eval_case args byId c tc st) \<le> expectedTotal (eval_case args byId c tc st)
       \<and> expectedHits (eval_case args byId c tc st) \<le> returnedTotal (eval_case args byId c tc st)"
    using Cons.prems by (intro hits_bounded_eval_case) simp_all
  with Cons.IH[of "eval_case args byId c tc st"] Cons.prems(1) show ?case by simp
qed

lemma percent_bounds:
  assumes "h \<le> (t::nat)" "t \<noteq> 0"
  shows "0 \<le> real h / real t * 100" "real h / real t * 100 \<le> 100"
proof -
  show "0 \<le> real h / real t * 100" by simp
  have "0 < real t" using assms by simp
  then show "real h / real t * 100 \<le> 100" using assms(1) by (simp add: field_simps)
qed

text \<open>
  C8. When the expected ids of every case of the suite are duplicate-free, the hits never
  exceed the expected total nor the returned total after any number of cases, so the recall of
  the finished run is between 0 and 100 (and 100 when nothing was expected) and the precision
  is 0 when nothing was returned and between 0 and 100 in any case.
\<close>

theorem accumulators_bounded:
  assumes "\<forall>tc \<in> set (cases suite). distinct (expectedIds tc)"
    and "main cwd args (Some suite) (Some rows) c s0 = (Inr sm, st)"
  shows "(\<forall>k \<le> length (cases suite).
            let stk = run_cases args (byId_of rows) c (take k (cases suite))
                        (snd (run_setup c
                           (datasetPath cwd args)
                           (init_state s0)))
            in expectedHits stk \<le> expectedTotal stk \<and> expectedHits stk \<le> returnedTotal stk)
       \<and> expectedHits sm \<le> expectedTotal sm \<and> expectedHits sm \<le> returnedTotal sm
       \<and> 0 \<le> recall sm \<and> recall sm \<le> 100
       \<and> (expectedTotal sm = 0 \<longrightarrow> recall sm = 100)
       \<and> (returnedTotal sm = 0 \<longrightarrow> precision sm = 0)
       \<and> 0 \<le> precision sm \<and> precision sm \<le> 100"
  using assms(2)
proof (rule main_Inr)
  fix suite' rows' st1
  let ?path = "datasetPath cwd args"
  assume eqs: "Some suite = Some suite'" "Some rows = Some rows'"
    and s: "run_setup c ?path (init_state s0) = (None, st1)"
    and cl: "run_cleanup c (run_cases args (byId_of rows') c (cases suite') st1) = (None, st)"
    and sm: "sm = finalize (length (cases suite')) st"
  from run_setup_preserves[OF s] have z: "expectedHits st1 \<le> expectedTotal st1 \<and> expectedHits st1 \<le> returnedTotal st1"
    by (auto simp: init_state_def)
  have pre: "expectedHits (run_cases args (byId_of rows) c cs st1)
                \<le> expectedTotal (run_cases args (byId_of rows) c cs st1)
           \<and> expectedHits (run_cases args (byId_of rows) c cs st1)
                \<le> returnedTotal (run_cases args (byId_of rows) c cs st1)"
    if "set cs \<subseteq> set (cases suite)" for cs
    using that assms(1) z by (intro hits_bounded_run_cases) auto
  have prefixes: "\<forall>k \<le> length (cases suite).
            let stk = run_cases args (byId_of rows) c (take k (cases suite))
                        (snd (run_setup c ?path (init_state s0)))
            in expectedHits stk \<le> expectedTotal stk \<and> expectedHits stk \<le> returnedTotal stk"
  proof (intro allI impI)
    fix k
    have "set (take k (cases suite)) \<subseteq> set (cases suite)" by (rule set_take_subset)
    from pre[OF this] show "let stk = run_cases args (byId_of rows) c (take k (cases suite))
                        (snd (run_setup c ?path (init_state s0)))
            in expectedHits stk \<le> expectedTotal stk \<and> expectedHits stk \<le> returnedTotal stk"
      by (simp add: s)
  qed
  from run_cleanup_preserves[OF cl] eqs pre[of "cases suite"]
  have fin: "expectedHits st \<le> expectedTotal st \<and> expectedHits st \<le> returnedTotal st"
    by auto
  then have c1: "expectedHits sm \<le> expectedTotal sm \<and> expectedHits sm \<le> returnedTotal sm"
    by (simp add: sm finalize_counters)
  have r: "0 \<le> recall sm \<and> recall sm \<le> 100 \<and> (expectedTotal sm = 0 \<longrightarrow> recall sm = 100)"
    using fin percent_bounds[of "expectedHits st" "expectedTotal st"]
    by (simp add: sm finalize_metrics finalize_counters)
  have p: "(returnedTotal sm = 0 \<longrightarrow> precision sm = 0) \<and> 0 \<le> precision sm \<and> precision sm \<le> 100"
    using fin percent_bounds[of "expectedHits st" "returnedTotal st"]
    by (simp add: sm finalize_metrics finalize_counters)
  from prefixes c1 r p show ?thesis by blast
qed

theorem accumulators_bounded_witness:
  "distinct (expectedIds scenario1) \<and> distinct (expectedIds scenario2)
   \<and> demo_run [scenario1, scenario2]
       = (Inr (demo_summary [scenario1, scenario2]), demo_final [scenario1, scenario2])
   \<and> expectedHits (demo_summary [scenario1, scenario2])
       \<le> expectedTotal (demo_summary [scenario1, scenario2])
   \<and> expectedHits (demo_summary [scenario1, scenario2])
       \<le> returnedTotal (demo_summary [scenario1, scenario2])
   \<and> 0 \<le> recall (demo_summary [scenario1, scenario2])
   \<and> recall (demo_summary [scenario1, scenario2]) \<le> 100
   \<and> 0 \<le> precision (demo_summary [scenario1, scenario2])
   \<and> precision (demo_summary [scenario1, scenario2]) \<le> 100"
proof -
  have d: "distinct (expectedIds scenario1)" "distinct (expectedIds scenario2)"
    by (simp_all add: scenario1_def scenario2_def demo_case_def)
  then have "\<forall>tc \<in> set (cases (demo_suite [scenario1, scenario2])). distinct (expectedIds tc)"
    by (simp add: demo_suite_def)
  from accumulators_bounded[OF this demo_run_mixed] d show ?thesis
    by (simp add: demo_run_def demo_run_mixed)
qed

section \<open>The 95th percentile\<close>

lemma floor_index_bound:
  assumes "0 < n"
  shows "0 \<le> \<lfloor>real (n - 1) * 0.95\<rfloor>" "nat \<lfloor>real (n - 1) * 0.95\<rfloor> < n"
proof -
  show "0 \<le> \<lfloor>real (n - 1) * 0.95\<rfloor>" by simp
  have "real (n - 1) * 0.95 \<le> real (n - 1)" by simp
  then have "\<lfloor>real (n - 1) * 0.95\<rfloor> \<le> \<lfloor>real (n - 1)\<rfloor>" by (rule floor_mono)
  then have "\<lfloor>real (n - 1) * 0.95\<rfloor> \<le> int (n - 1)" by simp
  then show "nat \<lfloor>real (n - 1) * 0.95\<rfloor> < n" using assms by linarith
qed

text \<open>
  C7. The percentile of no samples is 0; for a non-empty list of samples the index
  \<open>floor ((count - 1) * 0.95)\<close> is an index of the list, and the percentile is the sample at
  that index of the ascending sort. The summary's \<open>p95Ms\<close> is this percentile of the
  elapsed times. For the two samples 10 and 30 the index is 0 and the percentile is 10.
\<close>

theorem p95_floor_index:
  "percentile [] 0.95 = 0
   \<and> (vs \<noteq> [] \<longrightarrow>
        nat \<lfloor>real (length vs - 1) * 0.95\<rfloor> < length vs
        \<and> percentile vs 0.95 = sort vs ! nat \<lfloor>real (length vs - 1) * 0.95\<rfloor>)
   \<and> p95Ms (finalize n st) = percentile (timesMs st) 0.95
   \<and> \<lfloor>real (2 - 1) * 0.95\<rfloor> = (0::int)
   \<and> percentile [10, 30] 0.95 = 10"
proof -
  have a: "percentile [] 0.95 = 0" by (simp add: percentile_def)
  have b: "vs \<noteq> [] \<longrightarrow>
        nat \<lfloor>real (length vs - 1) * 0.95\<rfloor> < length vs
        \<and> percentile vs 0.95 = sort vs ! nat \<lfloor>real (length vs - 1) * 0.95\<rfloor>"
    using floor_index_bound[of "length vs"] by (simp add: percentile_def Let_def)
  have c: "p95Ms (finalize n st) = percentile (timesMs st) 0.95"
    by (rule finalize_metrics)
  have d: "\<lfloor>real (2 - 1) * 0.95\<rfloor> = (0::int)" by simp
  have e: "percentile [10, 30] 0.95 = 10" by (simp add: percentile_def Let_def)
  from a b c d e show ?thesis by blast
qed

theorem p95_floor_index_witness:
  "[30, 10, 20 :: real] \<noteq> []
   \<and> nat \<lfloor>real (length [30, 10, 20 :: real] - 1) * 0.95\<rfloor> = 1
   \<and> sort [30, 10, 20 :: real] = [10, 20, 30]
   \<and> percentile [30, 10, 20] 0.95 = 20"
proof -
  have i: "nat \<lfloor>real (length [30, 10, 20 :: real] - 1) * 0.95\<rfloor> = 1" by simp
  have s: "sort [30, 10, 20 :: real] = [10, 20, 30]" by simp
  from p95_floor_index[where vs = "[30, 10, 20]" and n = 0 and st = "init_state (0::nat)"]
  show ?thesis
    unfolding i s by simp
qed

end
